theory Spec2Isabelle
  imports Complex_Main
begin

section \<open>LottieFlow: the viewer component \<open>App\<close>\<close>

text \<open>
  The repository is one React component (\<open>App\<close>) and two interfaces (\<open>types.ts\<close>).
  The component owns six pieces of hook state, two references that matter here
  (\<open>containerRef\<close>, \<open>animationInstanceRef\<close>) and talks to three collaborators: the
  \<open>lottie\<close> render engine, the browser (\<open>alert\<close>, \<open>console.error\<close>) and the
  text-generation service. The model below is a state record for the hooks and the
  references, with whether the component is still mounted, and a trace of every call
  made to a collaborator, in order.
\<close>

subsection \<open>Values produced by \<open>JSON.parse\<close>\<close>

text \<open>
  A parsed JSON value. A number is the value the double denotes (the component never
  computes with numbers, it copies them, compares them and tests them for zero); the
  three doubles \<open>JSON.parse\<close> can give that denote no real of their own, \<open>-0\<close> and the
  two infinities of an overflowing literal, are values apart. A character of a string
  stands for one code unit. An object is its list of own properties, a key looked up
  with \<open>map_of\<close>. JavaScript's \<open>undefined\<close> is not a JSON value: a value that may be
  \<open>undefined\<close> has type \<open>json option\<close>, with \<open>None\<close> for \<open>undefined\<close>.
\<close>

datatype json =
    Null
  | Bool bool
  | Num real
  | NegZero
  | PosInfinity
  | NegInfinity
  | Str string
  | Arr "json list"
  | Obj "(string \<times> json) list"

datatype error = SyntaxError | TypeError | ServiceError string

text \<open>\<open>if (v)\<close>, \<open>!v\<close>, \<open>v || d\<close>: JavaScript's truthiness.\<close>

fun truthy :: "json \<Rightarrow> bool" where
  "truthy Null = False"
| "truthy (Bool b) = b"
| "truthy (Num n) = (n \<noteq> 0)"
| "truthy NegZero = False"
| "truthy PosInfinity = True"
| "truthy NegInfinity = True"
| "truthy (Str s) = (s \<noteq> [])"
| "truthy (Arr xs) = True"
| "truthy (Obj kvs) = True"

text \<open>Values compared by reference (arrays and objects) rather than by content.\<close>

fun is_reference :: "json \<Rightarrow> bool" where
  "is_reference (Arr xs) = True"
| "is_reference (Obj kvs) = True"
| "is_reference v = False"

text \<open>
  The member access \<open>v.k\<close>, for the property names the component reads (\<open>fr\<close>, \<open>ip\<close>,
  \<open>op\<close>, \<open>w\<close>, \<open>h\<close>, \<open>layers\<close>, \<open>length\<close>, \<open>v\<close>, \<open>assets\<close>): on \<open>null\<close> it throws a
  \<open>TypeError\<close>; on an object it is the own property or \<open>undefined\<close>; arrays and strings
  have \<open>length\<close>; numbers and booleans have none of these names.
\<close>

fun member :: "json \<Rightarrow> string \<Rightarrow> error + json option" where
  "member Null k = Inl TypeError"
| "member (Obj kvs) k = Inr (map_of kvs k)"
| "member (Arr xs) k = Inr (if k = ''length'' then Some (Num (of_nat (length xs))) else None)"
| "member (Str s) k = Inr (if k = ''length'' then Some (Num (of_nat (length s))) else None)"
| "member (Bool b) k = Inr None"
| "member (Num n) k = Inr None"
| "member NegZero k = Inr None"
| "member PosInfinity k = Inr None"
| "member NegInfinity k = Inr None"

text \<open>The optional chain \<open>v?.k\<close> on a value \<open>v\<close> that may be \<open>undefined\<close>.\<close>

fun optional_member :: "json option \<Rightarrow> string \<Rightarrow> error + json option" where
  "optional_member None k = Inr None"
| "optional_member (Some Null) k = Inr None"
| "optional_member (Some v) k = member v k"

text \<open>\<open>v || d\<close> on a value that may be \<open>undefined\<close>.\<close>

fun or_default :: "json option \<Rightarrow> json \<Rightarrow> json" where
  "or_default None d = d"
| "or_default (Some v) d = (if truthy v then v else d)"

text \<open>Sequencing of evaluations that may throw: the first exception ends the block.\<close>

fun andThen :: "error + 'a \<Rightarrow> ('a \<Rightarrow> error + 'b) \<Rightarrow> error + 'b" where
  "andThen (Inl e) f = Inl e"
| "andThen (Inr x) f = f x"

subsection \<open>\<open>types.ts\<close>\<close>

text \<open>
  \<open>LottieMetadata\<close>. The interface declares the six document fields as numbers; at run
  time they hold whatever the document has under these names, so they are typed as
  the values they can be. The field \<open>size\<close> is called \<open>size_bytes\<close> here.
\<close>

record LottieMetadata =
  name :: string
  size_bytes :: nat
  fr :: "json option"
  ip :: "json option"
  op :: "json option"
  w :: "json option"
  h :: "json option"
  layers :: json

datatype renderer = Svg | Canvas | Html

record AnimationSettings =
  loop :: bool
  speed :: real
  backgroundColor :: string
  renderer :: renderer

subsection \<open>Collaborators and component state\<close>

text \<open>The file handed to the upload handler: \<open>file.name\<close> and \<open>file.size\<close>.\<close>

record File =
  file_name :: string
  file_size :: nat

text \<open>
  The request given to \<open>ai.models.generateContent\<close>: the model identifier, the two
  metadata values interpolated in the prompt, and the object given to
  \<open>JSON.stringify\<close>.
\<close>

record request =
  model :: string
  prompt_layers :: "json option"
  prompt_fr :: "json option"
  summary :: "(string \<times> json option) list"

text \<open>
  A parsed value together with the stamp of the \<open>JSON.parse\<close> call that made it: two
  objects are the same object when their stamps agree.
\<close>

type_synonym stamped = "nat \<times> json"

text \<open>Every call to a collaborator. Engine instances are numbered as they are made.\<close>

datatype call =
    LoadAnimation nat renderer bool stamped
  | Destroy nat
  | SetSpeed nat real
  | Pause nat
  | Play nat
  | Stop nat
  | GoToAndPlay nat real
  | Alert string
  | ConsoleError error
  | GenerateContent request

record app =
  mounted :: bool
  animationData :: stamped
  metadata :: "LottieMetadata option"
  isPlaying :: bool
  isAnalyzing :: bool
  analysis :: "string option"
  settings :: AnimationSettings
  containerRef :: bool
  animationInstanceRef :: "nat option"
  effectDeps :: "stamped \<times> bool \<times> real \<times> renderer"
  parses :: nat
  instances :: nat
  trace :: "call list"

definition emit :: "call \<Rightarrow> app \<Rightarrow> app" where
  "emit c s = s\<lparr>trace := trace s @ [c]\<rparr>"

text \<open>The state of the first render: the \<open>useState\<close> and \<open>useRef\<close> initial values.\<close>

definition initial :: app where
  "initial =
     \<lparr>mounted = True, animationData = (0, Null), metadata = None, isPlaying = True,
      isAnalyzing = False, analysis = None,
      settings = \<lparr>loop = True, speed = 1, backgroundColor = ''#ffffff'', renderer = Svg\<rparr>,
      containerRef = False, animationInstanceRef = None,
      effectDeps = ((0, Null), True, 1, Svg),
      parses = 1, instances = 0, trace = []\<rparr>"

subsection \<open>\<open>initAnimation\<close> and the effect on \<open>[animationData, initAnimation]\<close>\<close>

text \<open>
  \<open>initAnimation(data)\<close>: destroys the instance the reference holds, if any (the
  reference is not cleared), and, when the viewport element is mounted and \<open>data\<close> is
  truthy, makes a new instance with the renderer and loop settings of this render,
  sets its speed and marks the animation as playing.
\<close>

definition initAnimation :: "stamped \<Rightarrow> app \<Rightarrow> app" where
  "initAnimation data s =
     (let s1 = (case animationInstanceRef s of None \<Rightarrow> s | Some i \<Rightarrow> emit (Destroy i) s)
      in if containerRef s1 \<and> truthy (snd data)
         then (let i = instances s1;
                   s2 = emit (LoadAnimation i (renderer (settings s1)) (loop (settings s1)) data)
                          (s1\<lparr>instances := i + 1\<rparr>);
                   s3 = s2\<lparr>animationInstanceRef := Some i\<rparr>;
                   s4 = emit (SetSpeed i (speed (settings s3))) s3
               in s4\<lparr>isPlaying := True\<rparr>)
         else s1)"

text \<open>The function the effect returns: run before the effect runs again.\<close>

definition cleanup :: "app \<Rightarrow> app" where
  "cleanup s = (case animationInstanceRef s of None \<Rightarrow> s | Some i \<Rightarrow> emit (Destroy i) s)"

definition effect :: "app \<Rightarrow> app" where
  "effect s = (if truthy (snd (animationData s)) then initAnimation (animationData s) s else s)"

text \<open>
  \<open>Object.is\<close> on two stamped values: references are equal when they are the same
  object, other values when they are the same value.
\<close>

definition object_is :: "stamped \<Rightarrow> stamped \<Rightarrow> bool" where
  "object_is a b =
     (if is_reference (snd a) \<or> is_reference (snd b) then a = b else snd a = snd b)"

text \<open>
  The dependencies of the effect in the current render. \<open>initAnimation\<close> is a
  \<open>useCallback\<close> on \<open>[settings.loop, settings.speed, settings.renderer]\<close>, so it is a
  new function exactly when one of the three differs from the previous render.
\<close>

definition deps :: "app \<Rightarrow> stamped \<times> bool \<times> real \<times> renderer" where
  "deps s = (animationData s, loop (settings s), speed (settings s), renderer (settings s))"

definition same_deps ::
  "stamped \<times> bool \<times> real \<times> renderer \<Rightarrow> stamped \<times> bool \<times> real \<times> renderer \<Rightarrow> bool" where
  "same_deps d e = (object_is (fst d) (fst e) \<and> snd d = snd e)"

text \<open>
  What the JSX does with the metadata. The inspector card, rendered when there is
  metadata, gives two values to React as they are, \<open>value={metadata.fr}\<close> and
  \<open>value={metadata.layers}\<close>, which \<open>Stat\<close> renders as \<open>{value}\<close>. React takes as a child
  \<open>null\<close>, \<open>undefined\<close>, a boolean, a number, a string and a list of such; a parsed
  object is no React element, and on it React throws.
\<close>

fun react_child :: "json \<Rightarrow> bool" where
  "react_child (Obj kvs) = False"
| "react_child (Arr xs) = list_all react_child xs"
| "react_child v = True"

text \<open>
  The four other values go through template literals (\<open>`${metadata.w}px`\<close>,
  \<open>`${metadata.h}px`\<close>, \<open>`${metadata.ip} - ${metadata.op}`\<close>). The conversion to a
  string throws a \<open>TypeError\<close> on an object with an own property \<open>toString\<close> (as
  parsed it is no function, and \<open>valueOf\<close> gives the object back); a list is joined
  from the conversions of its elements.
\<close>

fun template_string :: "json \<Rightarrow> bool" where
  "template_string (Obj kvs) = (map_of kvs ''toString'' = None)"
| "template_string (Arr xs) = list_all template_string xs"
| "template_string v = True"

text \<open>Both on a value that may be \<open>undefined\<close>, which renders as nothing or as its name.\<close>

fun if_defined :: "(json \<Rightarrow> bool) \<Rightarrow> json option \<Rightarrow> bool" where
  "if_defined P None = True"
| "if_defined P (Some v) = P v"

definition displays :: "LottieMetadata \<Rightarrow> bool" where
  "displays m =
     (if_defined template_string (w m) \<and> if_defined template_string (h m) \<and>
      if_defined react_child (fr m) \<and> react_child (layers m) \<and>
      if_defined template_string (ip m) \<and> if_defined template_string (op m))"

text \<open>The JSX of this render evaluates and React accepts it.\<close>

definition jsx_renders :: "app \<Rightarrow> bool" where
  "jsx_renders s = (case metadata s of None \<Rightarrow> True | Some m \<Rightarrow> displays m)"

text \<open>
  When it does not, the render throws: nothing is committed and no effect runs. The
  component has no error boundary, so React unmounts it: the cleanup of the last
  effect runs, the viewport element goes, and nothing is rendered from then on.
\<close>

definition unmount :: "app \<Rightarrow> app" where
  "unmount s = (cleanup s)\<lparr>mounted := False, containerRef := False\<rparr>"

text \<open>
  One render and commit after the state updates of a handler, which React applies
  together: the viewport element is mounted exactly when \<open>animationData\<close> is truthy
  (\<open>containerRef\<close> is attached before effects run); when a dependency changed, the
  previous cleanup runs and then the effect, with the settings of this render. The
  \<open>setIsPlaying(true)\<close> of the effect changes no dependency, so the render it causes
  runs no effect. The engine is taken to answer every call without throwing, and the
  repeated mounting of development builds is left out. An unmounted component renders
  nothing; its hook state is gone, and the record keeps values that nothing reads.
\<close>

definition render :: "app \<Rightarrow> app" where
  "render s =
     (if \<not> mounted s then s
      else if \<not> jsx_renders s then unmount s
      else (let s1 = s\<lparr>containerRef := truthy (snd (animationData s))\<rparr>
            in if same_deps (effectDeps s1) (deps s1) then s1
               else (effect (cleanup s1))\<lparr>effectDeps := deps s1\<rparr>))"

subsection \<open>The upload handler: \<open>reader.onload\<close> of \<open>handleFileUpload\<close>\<close>

definition parse_alert :: string where
  "parse_alert = ''Failed to parse Lottie JSON. Please ensure it's a valid Lottie file.''"

text \<open>
  The object literal given to \<open>setMetadata\<close>, its properties evaluated in order; each
  member access on \<open>json\<close> throws when \<open>json\<close> is \<open>null\<close>.
\<close>

definition metadata_literal :: "File \<Rightarrow> json \<Rightarrow> error + LottieMetadata" where
  "metadata_literal file json =
     andThen (member json ''fr'') (\<lambda>v_fr.
     andThen (member json ''ip'') (\<lambda>v_ip.
     andThen (member json ''op'') (\<lambda>v_op.
     andThen (member json ''w'') (\<lambda>v_w.
     andThen (member json ''h'') (\<lambda>v_h.
     andThen (member json ''layers'') (\<lambda>v_layers.
     andThen (optional_member v_layers ''length'') (\<lambda>n.
       Inr \<lparr>name = file_name file, size_bytes = file_size file,
            fr = v_fr, ip = v_ip, op = v_op, w = v_w, h = v_h,
            layers = or_default n (Num 0)\<rparr>)))))))"

text \<open>
  \<open>handleFileUpload\<close> returns at once without a file and otherwise starts reading it;
  what it does to the component is in \<open>reader.onload\<close>, run when the text has been
  read. \<open>JSON.parse\<close> is a parameter (\<open>Inl\<close> when it throws). The \<open>try\<close> block calls
  \<open>setAnimationData\<close> before it builds the metadata, so an exception raised while
  building it is caught after that update was queued. Every successful parse makes a
  value with a new stamp.
\<close>

definition reader_onload :: "(string \<Rightarrow> error + json) \<Rightarrow> File \<Rightarrow> string \<Rightarrow> app \<Rightarrow> app" where
  "reader_onload JSON_parse file text s =
     (case JSON_parse text of
        Inl e \<Rightarrow> emit (Alert parse_alert) s
      | Inr json \<Rightarrow>
          (let s1 = s\<lparr>animationData := (parses s, json), parses := parses s + 1\<rparr>
           in case metadata_literal file json of
                Inl e \<Rightarrow> emit (Alert parse_alert) s1
              | Inr m \<Rightarrow> s1\<lparr>metadata := Some m, analysis := None\<rparr>))"

text \<open>A load as the user sees it: the handler, then the render it causes.\<close>

definition upload :: "(string \<Rightarrow> error + json) \<Rightarrow> File \<Rightarrow> string \<Rightarrow> app \<Rightarrow> app" where
  "upload JSON_parse file text s = render (reader_onload JSON_parse file text s)"

fun uploads :: "(string \<Rightarrow> error + json) \<Rightarrow> (File \<times> string) list \<Rightarrow> app \<Rightarrow> app" where
  "uploads JSON_parse [] s = s"
| "uploads JSON_parse (ft # fts) s = uploads JSON_parse fts (upload JSON_parse (fst ft) (snd ft) s)"

subsection \<open>Transport and settings handlers\<close>

definition handlePlayPause :: "app \<Rightarrow> app" where
  "handlePlayPause s =
     (case animationInstanceRef s of
        None \<Rightarrow> s
      | Some i \<Rightarrow> (emit (if isPlaying s then Pause i else Play i) s)\<lparr>isPlaying := \<not> isPlaying s\<rparr>)"

definition handleStop :: "app \<Rightarrow> app" where
  "handleStop s =
     (case animationInstanceRef s of
        None \<Rightarrow> s
      | Some i \<Rightarrow> (emit (Stop i) s)\<lparr>isPlaying := False\<rparr>)"

text \<open>The \<open>onClick\<close> of the Restart button.\<close>

definition restart :: "app \<Rightarrow> app" where
  "restart s =
     (case animationInstanceRef s of
        None \<Rightarrow> s
      | Some i \<Rightarrow> emit (GoToAndPlay i 0) s)"

definition handleSpeedChange :: "real \<Rightarrow> app \<Rightarrow> app" where
  "handleSpeedChange v s =
     (let s1 = s\<lparr>settings := (settings s)\<lparr>speed := v\<rparr>\<rparr>
      in case animationInstanceRef s1 of
           None \<Rightarrow> s1
         | Some i \<Rightarrow> emit (SetSpeed i v) s1)"

text \<open>The \<open>onClick\<close> of the Looping button and the \<open>onChange\<close> of the renderer select.\<close>

definition toggleLoop :: "app \<Rightarrow> app" where
  "toggleLoop s = s\<lparr>settings := (settings s)\<lparr>loop := \<not> loop (settings s)\<rparr>\<rparr>"

definition selectRenderer :: "renderer \<Rightarrow> app \<Rightarrow> app" where
  "selectRenderer r s = s\<lparr>settings := (settings s)\<lparr>renderer := r\<rparr>\<rparr>"

text \<open>The settings controls as the user sees them: the handler, then the render.\<close>

definition changeSpeed :: "real \<Rightarrow> app \<Rightarrow> app" where
  "changeSpeed v s = render (handleSpeedChange v s)"

definition changeLoop :: "app \<Rightarrow> app" where
  "changeLoop s = render (toggleLoop s)"

definition changeRenderer :: "renderer \<Rightarrow> app \<Rightarrow> app" where
  "changeRenderer r s = render (selectRenderer r s)"

subsection \<open>\<open>handleAnalyze\<close>\<close>

definition analysis_failed :: string where
  "analysis_failed = ''AI Analysis failed. Check your API key or network.''"

definition analysis_empty :: string where
  "analysis_empty = ''Could not analyze the animation.''"

text \<open>The \<open>catch\<close> and \<open>finally\<close> blocks.\<close>

definition catch_finally :: "error \<Rightarrow> app \<Rightarrow> app" where
  "catch_finally e s = (emit (ConsoleError e) s)\<lparr>analysis := Some analysis_failed, isAnalyzing := False\<rparr>"

text \<open>
  The argument of \<open>generateContent\<close>, built from the state of this render. The prompt
  converts \<open>metadata.layers\<close> and \<open>metadata.fr\<close> to strings; in a component that has
  rendered both are React children, and those convert.
\<close>

definition request_of :: "app \<Rightarrow> error + request" where
  "request_of s =
     (let d = snd (animationData s)
      in andThen (member d ''fr'') (\<lambda>v_fr.
         andThen (member d ''w'') (\<lambda>v_w.
         andThen (member d ''h'') (\<lambda>v_h.
         andThen (member d ''layers'') (\<lambda>v_layers.
         andThen (optional_member v_layers ''length'') (\<lambda>v_layersCount.
         andThen (member d ''v'') (\<lambda>v_v.
         andThen (member d ''assets'') (\<lambda>v_assets.
         andThen (optional_member v_assets ''length'') (\<lambda>v_assetsCount.
           Inr \<lparr>model = ''gemini-3-flash-preview'',
                prompt_layers = map_option layers (metadata s),
                prompt_fr = (case metadata s of None \<Rightarrow> None | Some m \<Rightarrow> fr m),
                summary = [(''fr'', v_fr), (''w'', v_w), (''h'', v_h),
                           (''layersCount'', v_layersCount), (''v'', v_v),
                           (''assetsCount'', v_assetsCount)]\<rparr>)))))))))"

text \<open>
  \<open>handleAnalyze\<close> up to its \<open>await\<close>. The parameter says whether \<open>new GoogleGenAI\<close>
  throws (it does without an API key); then no request leaves and the \<open>catch\<close> and
  \<open>finally\<close> blocks run at once.
\<close>

definition handleAnalyze :: "error option \<Rightarrow> app \<Rightarrow> app" where
  "handleAnalyze constructor_throws s =
     (if \<not> truthy (snd (animationData s)) then s
      else (let s1 = s\<lparr>isAnalyzing := True\<rparr>
            in case constructor_throws of
                 Some e \<Rightarrow> catch_finally e s1
               | None \<Rightarrow>
                   (case request_of s1 of
                      Inl e \<Rightarrow> catch_finally e s1
                    | Inr r \<Rightarrow> emit (GenerateContent r) s1)))"

text \<open>
  What the awaited call comes back with: a response whose \<open>text\<close> is a string or
  \<open>undefined\<close>, or an exception (a rejected request, or a response that cannot be
  read).
\<close>

datatype outcome = Resolved "string option" | Rejected error

text \<open>\<open>handleAnalyze\<close> from its \<open>await\<close> on.\<close>

definition handleAnalyze_resumed :: "outcome \<Rightarrow> app \<Rightarrow> app" where
  "handleAnalyze_resumed out s =
     (case out of
        Resolved t \<Rightarrow>
          s\<lparr>analysis := Some (case t of None \<Rightarrow> analysis_empty
                                 | Some x \<Rightarrow> if x = [] then analysis_empty else x),
            isAnalyzing := False\<rparr>
      | Rejected e \<Rightarrow> catch_finally e s)"

text \<open>
  The AI Analysis button of the mounted component: rendered when there is metadata,
  \<open>disabled={isAnalyzing}\<close>; a click on a button that is absent or disabled calls no
  handler.
\<close>

definition click_AI_Analysis :: "error option \<Rightarrow> app \<Rightarrow> app" where
  "click_AI_Analysis constructor_throws s =
     (if metadata s = None \<or> isAnalyzing s then s
      else render (handleAnalyze constructor_throws s))"

subsection \<open>Reading the trace\<close>

text \<open>The instances that are live after a call, given those live before it.\<close>

fun live_step :: "nat set \<Rightarrow> call \<Rightarrow> nat set" where
  "live_step L (LoadAnimation i r l d) = insert i L"
| "live_step L (Destroy i) = L - {i}"
| "live_step L c = L"

definition live :: "call list \<Rightarrow> nat set" where
  "live tr = foldl live_step {} tr"

text \<open>At no point of the trace, starting with \<open>L\<close> live, are two instances live.\<close>

fun at_most_one_live :: "nat set \<Rightarrow> call list \<Rightarrow> bool" where
  "at_most_one_live L [] = (card L \<le> 1)"
| "at_most_one_live L (c # cs) = (card L \<le> 1 \<and> at_most_one_live (live_step L c) cs)"

fun created :: "call list \<Rightarrow> nat list" where
  "created [] = []"
| "created (LoadAnimation i r l d # cs) = i # created cs"
| "created (c # cs) = created cs"

fun destroyed :: "call list \<Rightarrow> nat list" where
  "destroyed [] = []"
| "destroyed (Destroy i # cs) = i # destroyed cs"
| "destroyed (c # cs) = destroyed cs"

fun requests :: "call list \<Rightarrow> request list" where
  "requests [] = []"
| "requests (GenerateContent r # cs) = r # requests cs"
| "requests (c # cs) = requests cs"

subsection \<open>Sample inputs\<close>

text \<open>
  The document of the specification's upload scenario, its text, and the value of
  \<open>JSON.parse\<close> on the few texts the examples below use; every other text is taken
  as malformed, as \<open>{oops\<close> is.
\<close>

definition sample_document :: json where
  "sample_document =
     Obj [(''fr'', Num 30), (''ip'', Num 0), (''op'', Num 90), (''w'', Num 512),
          (''h'', Num 512), (''layers'', Arr [Obj [], Obj [], Obj []]),
          (''v'', Str ''5.1''), (''assets'', Arr [])]"

definition sample_text :: string where
  \<open>sample_text =
     ''{"fr":30,"ip":0,"op":90,"w":512,"h":512,"layers":[{},{},{}],"v":"5.1","assets":[]}''\<close>

definition sample_parse :: "string \<Rightarrow> error + json" where
  "sample_parse t =
     (case map_of [(sample_text, sample_document), (''{}'', Obj []), (''null'', Null),
                   (''5'', Num 5)] t of
        None \<Rightarrow> Inl SyntaxError
      | Some v \<Rightarrow> Inr v)"

definition sample_file :: File where
  "sample_file = \<lparr>file_name = ''animation.json'', file_size = 2048\<rparr>"

subsection \<open>The state between loads\<close>

text \<open>
  What holds of the state after any number of loads of documents, and is used to follow
  a sequence of loads: no render is pending, the document's stamp is an old one, the
  instances made so far are \<open>0, \<dots>, instances - 1\<close> in this order, all but the last
  have been destroyed, and the reference holds the last, the only live one.
\<close>

definition between_loads :: "app \<Rightarrow> bool" where
  "between_loads s =
     (mounted s \<and>
      containerRef s = truthy (snd (animationData s)) \<and>
      effectDeps s = deps s \<and>
      fst (animationData s) < parses s \<and>
      created (trace s) = [0..<instances s] \<and>
      set (destroyed (trace s)) = {i. Suc i < instances s} \<and>
      at_most_one_live {} (trace s) \<and>
      animationInstanceRef s = (if instances s = 0 then None else Some (instances s - 1)) \<and>
      live (trace s) = (if instances s = 0 then {} else {instances s - 1}))"

subsection \<open>The component as a whole\<close>

text \<open>
  What can happen to the component: a file finishes loading, the user works a control,
  or the awaited analysis call comes back. The floating transport controls and the
  controls bar are rendered only when \<open>animationData\<close> is truthy, and no control is
  rendered once the component is unmounted, so their events reach a handler only
  otherwise; each handler is followed by its render. A read or a request that was
  pending when the component was unmounted still comes back.
\<close>

datatype event =
    FileLoaded File string
  | ClickPlayPause
  | ClickStop
  | ClickRestart
  | SlideSpeed real
  | PickColor string
  | ClickLooping
  | SelectRenderer renderer
  | ClickAnalysis "error option"
  | AnalysisBack outcome

definition shown :: "app \<Rightarrow> bool" where
  "shown s = (mounted s \<and> truthy (snd (animationData s)))"

fun step :: "(string \<Rightarrow> error + json) \<Rightarrow> app \<Rightarrow> event \<Rightarrow> app" where
  "step JSON_parse s (FileLoaded file text) = upload JSON_parse file text s"
| "step JSON_parse s ClickPlayPause = (if shown s then render (handlePlayPause s) else s)"
| "step JSON_parse s ClickStop = (if shown s then render (handleStop s) else s)"
| "step JSON_parse s ClickRestart = (if shown s then render (restart s) else s)"
| "step JSON_parse s (SlideSpeed v) = (if shown s then changeSpeed v s else s)"
| "step JSON_parse s (PickColor c) =
     (if shown s then render (s\<lparr>settings := (settings s)\<lparr>backgroundColor := c\<rparr>\<rparr>) else s)"
| "step JSON_parse s ClickLooping = (if shown s then changeLoop s else s)"
| "step JSON_parse s (SelectRenderer r) = (if shown s then changeRenderer r s else s)"
| "step JSON_parse s (ClickAnalysis constructor_throws) =
     (if mounted s then click_AI_Analysis constructor_throws s else s)"
| "step JSON_parse s (AnalysisBack out) = render (handleAnalyze_resumed out s)"

definition run :: "(string \<Rightarrow> error + json) \<Rightarrow> event list \<Rightarrow> app" where
  "run JSON_parse evs = foldl (step JSON_parse) initial evs"

text \<open>
  What holds of the engine after a handler and before its render: never two live
  instances, none live but the one the reference holds, and only old stamps in use.
\<close>

definition engine_ok :: "app \<Rightarrow> bool" where
  "engine_ok s =
     (at_most_one_live {} (trace s) \<and>
      live (trace s) \<subseteq> set_option (animationInstanceRef s) \<and>
      fst (animationData s) < parses s \<and>
      fst (fst (effectDeps s)) < parses s)"

text \<open>
  The session matches the document: with a truthy document in a mounted component the
  reference holds the one live instance, otherwise there is no live instance.
\<close>

definition session_ok :: "app \<Rightarrow> bool" where
  "session_ok s =
     (if mounted s \<and> truthy (snd (animationData s))
      then animationInstanceRef s \<noteq> None \<and> live (trace s) = set_option (animationInstanceRef s)
      else live (trace s) = {})"

text \<open>What holds after every render.\<close>

definition rendered_ok :: "app \<Rightarrow> bool" where
  "rendered_ok s =
     (engine_ok s \<and> session_ok s \<and>
      (mounted s \<longrightarrow>
         jsx_renders s \<and>
         containerRef s = truthy (snd (animationData s)) \<and>
         same_deps (effectDeps s) (deps s)))"

section \<open>Properties\<close>

subsection \<open>Rendering\<close>

lemmas render_defs =
  render_def unmount_def effect_def cleanup_def initAnimation_def emit_def Let_def

lemmas render_eval =
  render_defs jsx_renders_def displays_def same_deps_def object_is_def deps_def

lemma render_keeps:
  "metadata (render s) = metadata s"
  "analysis (render s) = analysis s"
  "isAnalyzing (render s) = isAnalyzing s"
  "settings (render s) = settings s"
  "animationData (render s) = animationData s"
  "parses (render s) = parses s"
  by (simp_all add: render_defs split: option.splits)

lemma object_is_refl: "object_is a a"
  by (simp add: object_is_def)

lemma same_deps_refl: "same_deps d d"
  by (simp add: same_deps_def object_is_refl)

lemma render_unmounted: "\<not> mounted s \<Longrightarrow> render s = s"
  by (simp add: render_def)

lemma render_settled:
  assumes "mounted s" and "jsx_renders s"
    and "containerRef s = truthy (snd (animationData s))"
    and "same_deps (effectDeps s) (deps s)"
  shows "render s = s"
  using assms by (simp add: render_def deps_def)

lemma mounted_render: "mounted (render s) = (mounted s \<and> jsx_renders s)"
  by (simp add: render_defs split: option.splits)

lemma containerRef_render:
  "mounted s \<Longrightarrow> jsx_renders s \<Longrightarrow> containerRef (render s) = truthy (snd (animationData s))"
  by (simp add: render_defs deps_def split: option.splits)

lemma effectDeps_render:
  "mounted s \<Longrightarrow> jsx_renders s \<Longrightarrow> \<not> same_deps (effectDeps s) (deps s) \<Longrightarrow>
   effectDeps (render s) = deps s"
  by (simp add: render_defs deps_def split: option.splits)

text \<open>A state that a render leaves as it is: unmounted, or rendered with no effect due.\<close>

lemma fixed_cases:
  assumes f: "render s = s" and m: "mounted s"
  shows "jsx_renders s \<and> containerRef s = truthy (snd (animationData s)) \<and>
         same_deps (effectDeps s) (deps s)"
proof -
  have j: "jsx_renders s"
    using mounted_render [of s] f m by simp
  have c: "containerRef s = truthy (snd (animationData s))"
    using containerRef_render [OF m j] f by simp
  have "same_deps (effectDeps s) (deps s)"
  proof (rule ccontr)
    assume n: "\<not> same_deps (effectDeps s) (deps s)"
    then have "effectDeps s = deps s" using effectDeps_render [OF m j] f by simp
    with n show False by (simp add: same_deps_refl)
  qed
  with j c show ?thesis by simp
qed

lemma fixed_transfer:
  assumes f: "render s = s"
    and same: "mounted s' = mounted s" "metadata s' = metadata s"
      "animationData s' = animationData s" "settings s' = settings s"
      "effectDeps s' = effectDeps s" "containerRef s' = containerRef s"
  shows "render s' = s'"
proof (cases "mounted s")
  case False
  then show ?thesis using same(1) by (simp add: render_unmounted)
next
  case True
  show ?thesis
    using fixed_cases [OF f True] True same
    by (intro render_settled) (simp_all add: deps_def jsx_renders_def)
qed

lemma react_child_template_string: "react_child v \<Longrightarrow> template_string v"
  by (induction v) (auto simp add: list_all_iff)

lemma member_defined: "json \<noteq> Null \<Longrightarrow> \<exists>v. member json k = Inr v"
  by (cases json) simp_all

lemma optional_member_defined: "\<exists>n. optional_member v k = Inr n"
proof (cases v)
  case None then show ?thesis by simp
next
  case (Some j) then show ?thesis by (cases j) simp_all
qed

lemma metadata_literal_defined:
  assumes "json \<noteq> Null"
  shows "\<exists>a b c d e f n.
           member json ''fr'' = Inr a \<and> member json ''ip'' = Inr b \<and> member json ''op'' = Inr c \<and>
           member json ''w'' = Inr d \<and> member json ''h'' = Inr e \<and> member json ''layers'' = Inr f \<and>
           optional_member f ''length'' = Inr n \<and>
           metadata_literal fl json =
             Inr \<lparr>name = file_name fl, size_bytes = file_size fl,
                  fr = a, ip = b, op = c, w = d, h = e, layers = or_default n (Num 0)\<rparr>"
proof -
  obtain a b c d e f where m: "member json ''fr'' = Inr a" "member json ''ip'' = Inr b"
    "member json ''op'' = Inr c" "member json ''w'' = Inr d" "member json ''h'' = Inr e"
    "member json ''layers'' = Inr f"
    using member_defined [OF assms] by meson
  obtain n where n: "optional_member f ''length'' = Inr n"
    using optional_member_defined by meson
  have "metadata_literal fl json =
             Inr \<lparr>name = file_name fl, size_bytes = file_size fl,
                  fr = a, ip = b, op = c, w = d, h = e, layers = or_default n (Num 0)\<rparr>"
    using m n by (simp add: metadata_literal_def)
  with m n show ?thesis by blast
qed

subsection \<open>The upload handler\<close>

text \<open>
  Claim C10, as amended. For every syntactically valid JSON input other than the
  literal \<open>null\<close>, the upload handler accepts the parsed value as the document without
  raising the alert and without any structural validation: the value is stored, the
  metadata fields \<open>fr\<close>, \<open>ip\<close>, \<open>op\<close>, \<open>w\<close>, \<open>h\<close> are what the member accesses give
  (\<open>undefined\<close> when the value lacks them), the name and size are the file's, and only
  the layer count has a default: it is 0 when \<open>layers\<close> is absent.
\<close>

theorem upload_accepts_non_null_json:
  assumes "JSON_parse text = Inr json" and "json \<noteq> Null"
  shows "\<exists>m. reader_onload JSON_parse fl text s =
               s\<lparr>animationData := (parses s, json), parses := parses s + 1,
                 metadata := Some m, analysis := None\<rparr>
           \<and> name m = file_name fl \<and> size_bytes m = file_size fl
           \<and> member json ''fr'' = Inr (fr m) \<and> member json ''ip'' = Inr (ip m)
           \<and> member json ''op'' = Inr (op m) \<and> member json ''w'' = Inr (w m)
           \<and> member json ''h'' = Inr (h m)
           \<and> (member json ''layers'' = Inr None \<longrightarrow> layers m = Num 0)"
proof -
  obtain a b c d e f n where
    m: "member json ''fr'' = Inr a" "member json ''ip'' = Inr b" "member json ''op'' = Inr c"
       "member json ''w'' = Inr d" "member json ''h'' = Inr e" "member json ''layers'' = Inr f"
       "optional_member f ''length'' = Inr n"
    and l: "metadata_literal fl json =
             Inr \<lparr>name = file_name fl, size_bytes = file_size fl,
                  fr = a, ip = b, op = c, w = d, h = e, layers = or_default n (Num 0)\<rparr>"
    using metadata_literal_defined [OF assms(2), of fl] by blast
  let ?m = "\<lparr>name = file_name fl, size_bytes = file_size fl,
                  fr = a, ip = b, op = c, w = d, h = e, layers = or_default n (Num 0)\<rparr>"
  have "reader_onload JSON_parse fl text s =
               s\<lparr>animationData := (parses s, json), parses := parses s + 1,
                 metadata := Some ?m, analysis := None\<rparr>"
    using assms(1) l by (simp add: reader_onload_def)
  moreover have "member json ''layers'' = Inr None \<longrightarrow> layers ?m = Num 0"
    using m by auto
  ultimately show ?thesis using m by (intro exI [of _ ?m]) simp
qed

theorem upload_accepts_non_null_json_witness:
  "sample_parse ''{}'' = Inr (Obj []) \<and> Obj [] \<noteq> Null \<and>
   (\<exists>m. reader_onload sample_parse sample_file ''{}'' initial =
               initial\<lparr>animationData := (parses initial, Obj []), parses := parses initial + 1,
                 metadata := Some m, analysis := None\<rparr>
           \<and> name m = file_name sample_file \<and> size_bytes m = file_size sample_file
           \<and> member (Obj []) ''fr'' = Inr (fr m) \<and> member (Obj []) ''ip'' = Inr (ip m)
           \<and> member (Obj []) ''op'' = Inr (op m) \<and> member (Obj []) ''w'' = Inr (w m)
           \<and> member (Obj []) ''h'' = Inr (h m)
           \<and> member (Obj []) ''layers'' = Inr None \<and> layers m = Num 0)"
  using upload_accepts_non_null_json [of sample_parse "''{}''" "Obj []" sample_file initial]
  by (simp add: sample_parse_def sample_text_def)

text \<open>
  Claim C10 as stated fails at the valid JSON text \<open>null\<close>: \<open>json.fr\<close> throws on
  \<open>null\<close>, the \<open>catch\<close> block raises the parse-failure alert and no metadata is set.
\<close>

theorem null_upload_counterexample:
  "sample_parse ''null'' = Inr Null \<and>
   trace (reader_onload sample_parse sample_file ''null'' initial) = [Alert parse_alert] \<and>
   metadata (reader_onload sample_parse sample_file ''null'' initial) = None"
  by (simp add: sample_parse_def sample_text_def reader_onload_def metadata_literal_def
      initial_def emit_def)

text \<open>
  Claim C3. Loading a document \<open>D\<close> (a JSON object whose \<open>layers\<close>, when present,
  is a list) from a file produces metadata whose \<open>fr\<close>, \<open>ip\<close>, \<open>op\<close>, \<open>w\<close>, \<open>h\<close> are
  the top-level fields of \<open>D\<close>, whose \<open>layers\<close> is the length of \<open>D.layers\<close> (0 when
  the list is absent), and whose name and size are the file's.
\<close>

theorem loaded_metadata_matches_document:
  assumes "JSON_parse text = Inr (Obj kvs)"
    and "map_of kvs ''layers'' = None \<or> (\<exists>ls. map_of kvs ''layers'' = Some (Arr ls))"
  shows "metadata (upload JSON_parse fl text s) =
           Some \<lparr>name = file_name fl, size_bytes = file_size fl,
                 fr = map_of kvs ''fr'', ip = map_of kvs ''ip'', op = map_of kvs ''op'',
                 w = map_of kvs ''w'', h = map_of kvs ''h'',
                 layers = Num (case map_of kvs ''layers'' of
                                 Some (Arr ls) \<Rightarrow> of_nat (length ls)
                               | _ \<Rightarrow> 0)\<rparr>"
proof -
  have "metadata_literal fl (Obj kvs) =
          Inr \<lparr>name = file_name fl, size_bytes = file_size fl,
                 fr = map_of kvs ''fr'', ip = map_of kvs ''ip'', op = map_of kvs ''op'',
                 w = map_of kvs ''w'', h = map_of kvs ''h'',
                 layers = Num (case map_of kvs ''layers'' of
                                 Some (Arr ls) \<Rightarrow> of_nat (length ls)
                               | _ \<Rightarrow> 0)\<rparr>"
    using assms(2) by (auto simp add: metadata_literal_def)
  then show ?thesis
    using assms(1) by (simp add: upload_def render_keeps reader_onload_def)
qed

theorem loaded_metadata_matches_document_witness:
  "metadata (upload sample_parse sample_file sample_text initial) =
     Some \<lparr>name = ''animation.json'', size_bytes = 2048,
           fr = Some (Num 30), ip = Some (Num 0), op = Some (Num 90),
           w = Some (Num 512), h = Some (Num 512), layers = Num 3\<rparr>"
  using loaded_metadata_matches_document
    [of sample_parse sample_text
        "[(''fr'', Num 30), (''ip'', Num 0), (''op'', Num 90), (''w'', Num 512),
          (''h'', Num 512), (''layers'', Arr [Obj [], Obj [], Obj []]),
          (''v'', Str ''5.1''), (''assets'', Arr [])]" sample_file initial]
  by (simp add: sample_parse_def sample_document_def sample_file_def)

text \<open>
  Claim C4. When the text of an upload fails to parse, the handler changes no state
  and raises the parse-failure alert; the document, the metadata, the analysis and
  the render session stay as they were, and the render that follows runs no effect.
\<close>

theorem malformed_upload_changes_nothing:
  assumes "JSON_parse text = Inl e"
  shows "reader_onload JSON_parse fl text s = s\<lparr>trace := trace s @ [Alert parse_alert]\<rparr> \<and>
         (render s = s \<longrightarrow>
            upload JSON_parse fl text s = s\<lparr>trace := trace s @ [Alert parse_alert]\<rparr>)"
proof -
  have r: "reader_onload JSON_parse fl text s = s\<lparr>trace := trace s @ [Alert parse_alert]\<rparr>"
    using assms by (simp add: reader_onload_def emit_def)
  have "render (s\<lparr>trace := trace s @ [Alert parse_alert]\<rparr>) = s\<lparr>trace := trace s @ [Alert parse_alert]\<rparr>"
    if "render s = s"
    by (rule fixed_transfer [OF that]) simp_all
  with r show ?thesis by (simp add: upload_def)
qed

theorem malformed_upload_changes_nothing_witness:
  "sample_parse ''{oops'' = Inl SyntaxError \<and>
   render (upload sample_parse sample_file sample_text initial) =
     upload sample_parse sample_file sample_text initial \<and>
   upload sample_parse sample_file ''{oops'' (upload sample_parse sample_file sample_text initial) =
     (upload sample_parse sample_file sample_text initial)
       \<lparr>trace := trace (upload sample_parse sample_file sample_text initial) @ [Alert parse_alert]\<rparr>"
proof -
  have p: "sample_parse ''{oops'' = Inl SyntaxError"
    by (simp add: sample_parse_def sample_text_def)
  have f: "render (upload sample_parse sample_file sample_text initial) =
     upload sample_parse sample_file sample_text initial"
    by (simp add: upload_def reader_onload_def sample_parse_def sample_document_def
        metadata_literal_def initial_def render_eval)
  show ?thesis
    using malformed_upload_changes_nothing
      [of sample_parse "''{oops''" SyntaxError sample_file
          "upload sample_parse sample_file sample_text initial"] p f
    by simp
qed

text \<open>
  Claim C8. Whenever a document is loaded successfully (the text parses and the
  metadata is built, which is every parsed value but \<open>null\<close>), the stored analysis is
  reset to absent, whatever it was before.
\<close>

theorem load_clears_analysis:
  assumes "JSON_parse text = Inr json" and "json \<noteq> Null"
  shows "analysis (upload JSON_parse fl text s) = None"
proof -
  obtain m where "metadata_literal fl json = Inr m"
    using metadata_literal_defined [OF assms(2), of fl] by blast
  then show ?thesis
    using assms(1) by (simp add: upload_def render_keeps reader_onload_def)
qed

theorem load_clears_analysis_witness:
  "sample_parse ''{}'' = Inr (Obj []) \<and> Obj [] \<noteq> Null \<and>
   analysis (handleAnalyze_resumed (Resolved (Some ''A loading spinner.''))
               (upload sample_parse sample_file sample_text initial)) =
     Some ''A loading spinner.'' \<and>
   analysis (upload sample_parse sample_file ''{}''
               (handleAnalyze_resumed (Resolved (Some ''A loading spinner.''))
                  (upload sample_parse sample_file sample_text initial))) = None"
  using load_clears_analysis
    [of sample_parse "''{}''" "Obj []" sample_file
        "handleAnalyze_resumed (Resolved (Some ''A loading spinner.''))
           (upload sample_parse sample_file sample_text initial)"]
  by (simp add: sample_parse_def sample_text_def handleAnalyze_resumed_def)

subsection \<open>The analysis request\<close>

lemma request_of_defined:
  assumes "truthy (snd (animationData s))"
  shows "\<exists>r. request_of s = Inr r"
proof -
  have n: "snd (animationData s) \<noteq> Null" using assms by auto
  obtain a b c d e f where m: "member (snd (animationData s)) ''fr'' = Inr a"
    "member (snd (animationData s)) ''w'' = Inr b" "member (snd (animationData s)) ''h'' = Inr c"
    "member (snd (animationData s)) ''layers'' = Inr d" "member (snd (animationData s)) ''v'' = Inr e"
    "member (snd (animationData s)) ''assets'' = Inr f"
    using member_defined [OF n] by meson
  obtain x y where "optional_member d ''length'' = Inr x" "optional_member f ''length'' = Inr y"
    using optional_member_defined by meson
  with m show ?thesis by (simp add: request_of_def)
qed

lemma requests_append: "requests (xs @ ys) = requests xs @ requests ys"
  by (induction xs rule: requests.induct) simp_all

lemma requests_render: "requests (trace (render s)) = requests (trace s)"
  by (simp add: render_defs requests_append split: option.splits)

text \<open>
  Claim C5. A click on the AI Analysis button while a request is pending is a no-op:
  the button is disabled by the pending flag, no handler runs and nothing is queued.
  So two clicks in succession, the first of which sends a request, send exactly one.
\<close>

theorem second_trigger_is_noop:
  "(isAnalyzing s \<longrightarrow> click_AI_Analysis c s = s) \<and>
   (metadata s \<noteq> None \<and> truthy (snd (animationData s)) \<and> \<not> isAnalyzing s \<longrightarrow>
      isAnalyzing (click_AI_Analysis None s) \<and>
      click_AI_Analysis c (click_AI_Analysis None s) = click_AI_Analysis None s \<and>
      length (requests (trace (click_AI_Analysis c (click_AI_Analysis None s)))) =
        length (requests (trace s)) + 1)"
proof -
  have a: "click_AI_Analysis c s = s" if "isAnalyzing s" for c s
    using that by (simp add: click_AI_Analysis_def)
  have b: "isAnalyzing (click_AI_Analysis None s) \<and>
           length (requests (trace (click_AI_Analysis None s))) = length (requests (trace s)) + 1"
    if m: "metadata s \<noteq> None" and t: "truthy (snd (animationData s))" and n: "\<not> isAnalyzing s"
  proof -
    obtain r where "request_of (s\<lparr>isAnalyzing := True\<rparr>) = Inr r"
      using request_of_defined [of "s\<lparr>isAnalyzing := True\<rparr>"] t by auto
    then have "handleAnalyze None s = emit (GenerateContent r) (s\<lparr>isAnalyzing := True\<rparr>)"
      using t by (simp add: handleAnalyze_def)
    then show ?thesis
      using m n by (simp add: click_AI_Analysis_def render_keeps requests_render emit_def requests_append)
  qed
  show ?thesis using a b by simp
qed

theorem second_trigger_is_noop_witness:
  "isAnalyzing (click_AI_Analysis None (upload sample_parse sample_file sample_text initial)) \<and>
   click_AI_Analysis None (click_AI_Analysis None (upload sample_parse sample_file sample_text initial)) =
     click_AI_Analysis None (upload sample_parse sample_file sample_text initial) \<and>
   length (requests (trace (click_AI_Analysis None
      (click_AI_Analysis None (upload sample_parse sample_file sample_text initial))))) = 1"
proof -
  let ?s = "upload sample_parse sample_file sample_text initial"
  have "metadata ?s \<noteq> None" "truthy (snd (animationData ?s))" "\<not> isAnalyzing ?s"
    "requests (trace ?s) = []"
    by (simp_all add: upload_def reader_onload_def sample_parse_def sample_document_def
        metadata_literal_def initial_def render_eval)
  then show ?thesis
    using second_trigger_is_noop [of ?s None] by auto
qed

text \<open>
  Claim C6. When the analysis request fails, whether the awaited call throws or the
  client cannot be constructed, the stored analysis becomes the fixed failure
  message and the pending flag is cleared; the exception goes to \<open>console.error\<close>
  only, and nothing else of the state changes. The render keeps both values.
\<close>

theorem failed_analysis_recovers:
  "handleAnalyze_resumed (Rejected e) s =
     s\<lparr>analysis := Some analysis_failed, isAnalyzing := False,
       trace := trace s @ [ConsoleError e]\<rparr> \<and>
   (truthy (snd (animationData s)) \<longrightarrow>
      handleAnalyze (Some e) s =
        s\<lparr>analysis := Some analysis_failed, isAnalyzing := False,
          trace := trace s @ [ConsoleError e]\<rparr>) \<and>
   analysis (render (handleAnalyze_resumed (Rejected e) s)) = Some analysis_failed \<and>
   \<not> isAnalyzing (render (handleAnalyze_resumed (Rejected e) s))"
  by (simp add: handleAnalyze_resumed_def handleAnalyze_def catch_finally_def emit_def render_keeps)

theorem failed_analysis_recovers_witness:
  "isAnalyzing (click_AI_Analysis None (upload sample_parse sample_file sample_text initial)) \<and>
   analysis (handleAnalyze_resumed (Rejected (ServiceError ''network''))
       (click_AI_Analysis None (upload sample_parse sample_file sample_text initial))) =
     Some ''AI Analysis failed. Check your API key or network.'' \<and>
   \<not> isAnalyzing (handleAnalyze_resumed (Rejected (ServiceError ''network''))
       (click_AI_Analysis None (upload sample_parse sample_file sample_text initial))) \<and>
   truthy (snd (animationData (upload sample_parse sample_file sample_text initial))) \<and>
   analysis (handleAnalyze (Some (ServiceError ''no API key''))
       (upload sample_parse sample_file sample_text initial)) =
     Some ''AI Analysis failed. Check your API key or network.''"
proof -
  let ?s = "upload sample_parse sample_file sample_text initial"
  have t: "truthy (snd (animationData ?s))" "metadata ?s \<noteq> None" "\<not> isAnalyzing ?s"
    by (simp_all add: upload_def reader_onload_def sample_parse_def sample_document_def
        metadata_literal_def initial_def render_eval)
  obtain r where "request_of (?s\<lparr>isAnalyzing := True\<rparr>) = Inr r"
    using request_of_defined [of "?s\<lparr>isAnalyzing := True\<rparr>"] t(1) by auto
  then have p: "isAnalyzing (click_AI_Analysis None ?s)"
    using t by (simp add: click_AI_Analysis_def render_keeps handleAnalyze_def emit_def)
  show ?thesis
    using failed_analysis_recovers [of "ServiceError ''network''" "click_AI_Analysis None ?s"]
      failed_analysis_recovers [of "ServiceError ''no API key''" ?s] t p
    by (simp add: analysis_failed_def)
qed

text \<open>
  Claim C7, as amended. When the analysis request succeeds with a non-empty text, that
  text is stored verbatim as the analysis; when the response has no text or an empty
  one, the fixed message \<open>Could not analyze the animation.\<close> is stored instead. In both
  cases the pending flag is cleared.
\<close>

theorem successful_analysis_stored:
  "(t \<noteq> [] \<longrightarrow> analysis (handleAnalyze_resumed (Resolved (Some t)) s) = Some t) \<and>
   analysis (handleAnalyze_resumed (Resolved (Some [])) s) = Some analysis_empty \<and>
   analysis (handleAnalyze_resumed (Resolved None) s) = Some analysis_empty \<and>
   \<not> isAnalyzing (handleAnalyze_resumed (Resolved x) s)"
  by (simp add: handleAnalyze_resumed_def)

theorem successful_analysis_stored_witness:
  "''A loading spinner.'' \<noteq> [] \<and>
   analysis (handleAnalyze_resumed (Resolved (Some ''A loading spinner.'')) initial) =
     Some ''A loading spinner.''"
  using successful_analysis_stored [of "''A loading spinner.''" initial]
  by simp

text \<open>
  Claim C7 as stated fails when the service returns the empty text: what is stored is
  not that text but the fixed message.
\<close>

theorem empty_text_counterexample:
  "analysis (handleAnalyze_resumed (Resolved (Some '''')) initial) \<noteq> Some ''''"
  by (simp add: handleAnalyze_resumed_def analysis_empty_def)

subsection \<open>Sequences of loads\<close>

lemma created_append: "created (xs @ ys) = created xs @ created ys"
  by (induction xs rule: created.induct) simp_all

lemma destroyed_append: "destroyed (xs @ ys) = destroyed xs @ destroyed ys"
  by (induction xs rule: destroyed.induct) simp_all

lemma live_append: "live (xs @ ys) = foldl live_step (live xs) ys"
  by (simp add: live_def)

lemma at_most_one_live_append:
  "at_most_one_live L (xs @ ys) =
     (at_most_one_live L xs \<and> at_most_one_live (foldl live_step L xs) ys)"
proof (induction xs arbitrary: L)
  case Nil
  then show ?case by (cases ys) auto
next
  case (Cons x xs)
  then show ?case by auto
qed

lemma upload_trace:
  assumes p: "JSON_parse text = Inr json" and r: "is_reference json"
    and m: "metadata_literal fl json = Inr m" and d: "displays m"
    and mt: "mounted s" and e: "effectDeps s = deps s" and f: "fst (animationData s) < parses s"
  shows "upload JSON_parse fl text s =
           s\<lparr>animationData := (parses s, json), parses := parses s + 1,
             metadata := Some m, analysis := None,
             containerRef := True, isPlaying := True,
             animationInstanceRef := Some (instances s),
             instances := instances s + 1,
             effectDeps := ((parses s, json), loop (settings s), speed (settings s),
                            renderer (settings s)),
             trace := trace s @
               (case animationInstanceRef s of None \<Rightarrow> [] | Some i \<Rightarrow> [Destroy i, Destroy i]) @
               [LoadAnimation (instances s) (renderer (settings s)) (loop (settings s))
                  (parses s, json),
                SetSpeed (instances s) (speed (settings s))]\<rparr>"
proof -
  have t: "truthy json" using r by (cases json) simp_all
  have ro: "reader_onload JSON_parse fl text s =
      s\<lparr>animationData := (parses s, json), parses := parses s + 1,
        metadata := Some m, analysis := None\<rparr>"
    using p m by (simp add: reader_onload_def)
  have o: "\<not> object_is (animationData s) (parses s, json)"
    using r f by (auto simp add: object_is_def)
  show ?thesis
    unfolding upload_def ro using o t e d mt
    by (cases "animationInstanceRef s")
       (simp_all add: render_defs jsx_renders_def same_deps_def deps_def)
qed

lemma between_loads_initial: "between_loads initial"
  by (simp add: between_loads_def initial_def deps_def live_def)

lemma between_loads_upload:
  assumes p: "JSON_parse text = Inr json" and r: "is_reference json"
    and m: "metadata_literal fl json = Inr m" and d: "displays m"
    and b: "between_loads s"
  shows "between_loads (upload JSON_parse fl text s) \<and>
         instances (upload JSON_parse fl text s) = instances s + 1"
proof -
  have t: "truthy json" using r by (cases json) simp_all
  have mt: "mounted s" and e: "effectDeps s = deps s" and f: "fst (animationData s) < parses s"
    using b by (simp_all add: between_loads_def)
  note u = upload_trace [of JSON_parse "text" json fl m s, OF p r m d mt e f]
  show ?thesis
  proof (cases "instances s = 0")
    case True
    then have "animationInstanceRef s = None" "live (trace s) = {}"
      "created (trace s) = []" "set (destroyed (trace s)) = {}" "at_most_one_live {} (trace s)"
      using b by (simp_all add: between_loads_def)
    then show ?thesis
      using True t mt
      by (simp add: u between_loads_def deps_def created_append destroyed_append
          live_append at_most_one_live_append live_def)
  next
    case False
    then obtain k where k: "instances s = Suc k" by (cases "instances s") auto
    then have "animationInstanceRef s = Some k" "live (trace s) = {k}"
      "created (trace s) = [0..<Suc k]" "set (destroyed (trace s)) = {i. Suc i < Suc k}"
      "at_most_one_live {} (trace s)"
      using b by (simp_all add: between_loads_def)
    then show ?thesis
      using k t mt
      by (auto simp add: u between_loads_def deps_def created_append destroyed_append
          live_append at_most_one_live_append live_def less_Suc_eq)
  qed
qed

lemma between_loads_uploads:
  assumes "\<forall>ft \<in> set fts. \<exists>json m. JSON_parse (snd ft) = Inr json \<and> is_reference json \<and>
             metadata_literal (fst ft) json = Inr m \<and> displays m"
    and "between_loads s"
  shows "between_loads (uploads JSON_parse fts s) \<and>
         instances (uploads JSON_parse fts s) = instances s + length fts"
  using assms
proof (induction fts arbitrary: s)
  case Nil
  then show ?case by simp
next
  case (Cons ft fts)
  then obtain json m where j: "JSON_parse (snd ft) = Inr json" "is_reference json"
    "metadata_literal (fst ft) json = Inr m" "displays m"
    by auto
  have s: "between_loads (upload JSON_parse (fst ft) (snd ft) s)"
    "instances (upload JSON_parse (fst ft) (snd ft) s) = instances s + 1"
    using between_loads_upload [of JSON_parse "snd ft" json "fst ft" m s] j Cons.prems(2)
    by simp_all
  show ?case
    using Cons.IH [OF _ s(1)] Cons.prems(1) s(2) by simp
qed

text \<open>
  Claim C1, as amended. For every sequence of \<open>N\<close> consecutive loads, starting from
  the first render, of documents (parsed objects or arrays) whose metadata the
  inspector can display (\<open>fr\<close> and the layer count hold no object, and \<open>w\<close>, \<open>h\<close>, \<open>ip\<close>,
  \<open>op\<close> convert to strings), the engine receives exactly \<open>N\<close> create calls, for the
  instances \<open>0, \<dots>, N - 1\<close> in this order; at no point of the trace are two instances
  live, so each instance is destroyed before the next is created; and after the \<open>N\<close>
  loads the instances destroyed are the first \<open>N - 1\<close> and the last one is live (the
  first load has nothing to destroy).
\<close>

theorem loads_replace_session:
  assumes "\<forall>ft \<in> set fts. \<exists>json m. JSON_parse (snd ft) = Inr json \<and> is_reference json \<and>
             metadata_literal (fst ft) json = Inr m \<and> displays m"
  shows "created (trace (uploads JSON_parse fts initial)) = [0..<length fts] \<and>
         at_most_one_live {} (trace (uploads JSON_parse fts initial)) \<and>
         set (destroyed (trace (uploads JSON_parse fts initial))) = {i. Suc i < length fts} \<and>
         live (trace (uploads JSON_parse fts initial)) =
           (if fts = [] then {} else {length fts - 1})"
proof -
  have "between_loads (uploads JSON_parse fts initial)"
    and "instances (uploads JSON_parse fts initial) = length fts"
    using between_loads_uploads [OF assms between_loads_initial]
    by (simp_all add: initial_def)
  then show ?thesis
    by (simp add: between_loads_def)
qed

theorem loads_replace_session_witness:
  "created (trace (uploads sample_parse
      [(sample_file, sample_text), (sample_file, ''{}''), (sample_file, sample_text)] initial)) =
     [0, 1, 2] \<and>
   at_most_one_live {} (trace (uploads sample_parse
      [(sample_file, sample_text), (sample_file, ''{}''), (sample_file, sample_text)] initial)) \<and>
   set (destroyed (trace (uploads sample_parse
      [(sample_file, sample_text), (sample_file, ''{}''), (sample_file, sample_text)] initial))) =
     {0, 1} \<and>
   live (trace (uploads sample_parse
      [(sample_file, sample_text), (sample_file, ''{}''), (sample_file, sample_text)] initial)) =
     {2}"
proof -
  have h: "\<forall>ft \<in> set [(sample_file, sample_text), (sample_file, ''{}''), (sample_file, sample_text)].
      \<exists>json m. sample_parse (snd ft) = Inr json \<and> is_reference json \<and>
        metadata_literal (fst ft) json = Inr m \<and> displays m"
    by (simp add: sample_parse_def sample_text_def sample_document_def metadata_literal_def
        displays_def)
  have d: "{i::nat. i < Suc (Suc 0)} = {0, Suc 0}" by auto
  show ?thesis
    using loads_replace_session [OF h] h by (simp add: upt_rec d)
qed

text \<open>
  Claim C1 as stated fails at \<open>N = 1\<close>: the first load creates an instance and destroys
  none, so one create call is paired with no destroy call.
\<close>

theorem first_load_counterexample:
  "created (trace (uploads sample_parse [(sample_file, sample_text)] initial)) = [0] \<and>
   destroyed (trace (uploads sample_parse [(sample_file, sample_text)] initial)) = []"
  by (simp add: upload_def reader_onload_def sample_parse_def sample_document_def
        metadata_literal_def initial_def render_eval)

text \<open>
  A document the inspector cannot display is not covered: the document \<open>{"fr":{}}\<close>
  is an object, and its load creates no instance, since the render throws on the
  object given to React as a child and the component is unmounted.
\<close>

lemma undisplayed_load_creates_nothing:
  \<open>trace (uploads (\<lambda>t. Inr (Obj [(''fr'', Obj [])])) [(sample_file, ''{"fr":{}}'')] initial) = [] \<and>
   \<not> mounted (uploads (\<lambda>t. Inr (Obj [(''fr'', Obj [])])) [(sample_file, ''{"fr":{}}'')] initial)\<close>
  by (simp add: upload_def reader_onload_def metadata_literal_def initial_def render_eval)

subsection \<open>Settings changes\<close>

lemma settings_change_rebuilds:
  assumes f: "render s = s" and mt: "mounted s" and i: "animationInstanceRef s = Some i"
    and t: "truthy (snd (animationData s))"
    and d: "(loop st, speed st, renderer st) \<noteq>
            (loop (settings s), speed (settings s), renderer (settings s))"
  shows "trace (render (s\<lparr>settings := st, trace := tr\<rparr>)) =
           tr @ [Destroy i, Destroy i,
                 LoadAnimation (instances s) (renderer st) (loop st) (animationData s),
                 SetSpeed (instances s) (speed st)]"
proof -
  have j: "jsx_renders s" and e: "same_deps (effectDeps s) (deps s)"
    using fixed_cases [OF f mt] by simp_all
  have "\<not> same_deps (effectDeps s) (deps (s\<lparr>settings := st, trace := tr\<rparr>))"
    using e d by (auto simp add: same_deps_def deps_def)
  then show ?thesis
    using i t j mt by (simp add: render_defs jsx_renders_def deps_def)
qed

lemma speed_change_rebuilds:
  assumes "render s = s" and "mounted s" and "animationInstanceRef s = Some i"
    and "truthy (snd (animationData s))" and "v \<noteq> speed (settings s)"
  shows "trace (changeSpeed v s) =
           trace s @ [SetSpeed i v, Destroy i, Destroy i,
                 LoadAnimation (instances s) (renderer (settings s)) (loop (settings s))
                   (animationData s),
                 SetSpeed (instances s) v]"
  using settings_change_rebuilds
    [OF assms(1-4), of "(settings s)\<lparr>speed := v\<rparr>" "trace s @ [SetSpeed i v]"] assms(3,5)
  by (simp add: changeSpeed_def handleSpeedChange_def emit_def)

lemma loop_change_rebuilds:
  assumes "render s = s" and "mounted s" and "animationInstanceRef s = Some i"
    and "truthy (snd (animationData s))"
  shows "trace (changeLoop s) =
           trace s @ [Destroy i, Destroy i,
                 LoadAnimation (instances s) (renderer (settings s)) (\<not> loop (settings s))
                   (animationData s),
                 SetSpeed (instances s) (speed (settings s))]"
  using settings_change_rebuilds
    [OF assms(1-4), of "(settings s)\<lparr>loop := \<not> loop (settings s)\<rparr>" "trace s"]
  by (simp add: changeLoop_def toggleLoop_def)

lemma renderer_change_rebuilds:
  assumes "render s = s" and "mounted s" and "animationInstanceRef s = Some i"
    and "truthy (snd (animationData s))" and "r \<noteq> renderer (settings s)"
  shows "trace (changeRenderer r s) =
           trace s @ [Destroy i, Destroy i,
                 LoadAnimation (instances s) r (loop (settings s)) (animationData s),
                 SetSpeed (instances s) (speed (settings s))]"
  using settings_change_rebuilds
    [OF assms(1-4), of "(settings s)\<lparr>renderer := r\<rparr>" "trace s"] assms(5)
  by (simp add: changeRenderer_def selectRenderer_def)

text \<open>
  Claim C2, followed on the code. After a document is loaded (instance 0, speed 1),
  moving the speed slider to 2 calls \<open>setSpeed(2)\<close> on the live instance and then,
  in the render that follows, destroys that instance and creates instance 1:
  \<open>settings.speed\<close> is a dependency of \<open>initAnimation\<close>, so the effect runs again.
  Toggling the loop and selecting the canvas renderer destroy and recreate the
  session, as the claim says.
\<close>

theorem speed_change_recreates_session:
  "trace (upload sample_parse sample_file sample_text initial) =
     [LoadAnimation 0 Svg True (1, sample_document), SetSpeed 0 1] \<and>
   trace (changeSpeed 2 (upload sample_parse sample_file sample_text initial)) =
     [LoadAnimation 0 Svg True (1, sample_document), SetSpeed 0 1,
      SetSpeed 0 2, Destroy 0, Destroy 0,
      LoadAnimation 1 Svg True (1, sample_document), SetSpeed 1 2] \<and>
   trace (changeLoop (upload sample_parse sample_file sample_text initial)) =
     [LoadAnimation 0 Svg True (1, sample_document), SetSpeed 0 1,
      Destroy 0, Destroy 0,
      LoadAnimation 1 Svg False (1, sample_document), SetSpeed 1 1] \<and>
   trace (changeRenderer Canvas (upload sample_parse sample_file sample_text initial)) =
     [LoadAnimation 0 Svg True (1, sample_document), SetSpeed 0 1,
      Destroy 0, Destroy 0,
      LoadAnimation 1 Canvas True (1, sample_document), SetSpeed 1 1]"
proof -
  let ?s = "upload sample_parse sample_file sample_text initial"
  have s: "render ?s = ?s" "mounted ?s" "animationInstanceRef ?s = Some 0"
    "truthy (snd (animationData ?s))" "speed (settings ?s) = 1" "renderer (settings ?s) = Svg"
    "loop (settings ?s)" "instances ?s = 1" "animationData ?s = (1, sample_document)"
    "trace ?s = [LoadAnimation 0 Svg True (1, sample_document), SetSpeed 0 1]"
    by (simp_all add: upload_def reader_onload_def sample_parse_def sample_document_def
        metadata_literal_def initial_def render_eval)
  show ?thesis
    using speed_change_rebuilds [OF s(1-4), of 2] loop_change_rebuilds [OF s(1-4)]
      renderer_change_rebuilds [OF s(1-4), of Canvas] s(5-10)
    by simp
qed

subsection \<open>Every reachable state\<close>

lemma at_most_one_live_end:
  "at_most_one_live L xs \<Longrightarrow> card (foldl live_step L xs) \<le> 1"
  by (induction xs arbitrary: L) auto

lemma at_most_one_live_snoc:
  "at_most_one_live L (xs @ [c]) =
     (at_most_one_live L xs \<and> card (live_step (foldl live_step L xs) c) \<le> 1)"
  using at_most_one_live_end [of L xs] by (auto simp add: at_most_one_live_append)

lemma live_snoc: "live (xs @ [c]) = live_step (live xs) c"
  by (simp add: live_def)

lemma render_changed:
  assumes "mounted s" and "jsx_renders s" and "\<not> same_deps (effectDeps s) (deps s)"
  shows "render s =
     (if truthy (snd (animationData s))
      then s\<lparr>containerRef := True, isPlaying := True,
             animationInstanceRef := Some (instances s),
             instances := instances s + 1,
             effectDeps := deps s,
             trace := trace s @
                (case animationInstanceRef s of None \<Rightarrow> [] | Some i \<Rightarrow> [Destroy i, Destroy i]) @
                [LoadAnimation (instances s) (renderer (settings s)) (loop (settings s))
                   (animationData s),
                 SetSpeed (instances s) (speed (settings s))]\<rparr>
      else s\<lparr>containerRef := False, effectDeps := deps s,
             trace := trace s @
                (case animationInstanceRef s of None \<Rightarrow> [] | Some i \<Rightarrow> [Destroy i])\<rparr>)"
  using assms
  by (cases "animationInstanceRef s") (simp_all add: render_defs deps_def)

lemma render_thrown:
  assumes "mounted s" and "\<not> jsx_renders s"
  shows "render s =
     s\<lparr>mounted := False, containerRef := False,
       trace := trace s @ (case animationInstanceRef s of None \<Rightarrow> [] | Some i \<Rightarrow> [Destroy i])\<rparr>"
  using assms
  by (cases "animationInstanceRef s") (simp_all add: render_defs)

lemma live_rebuild:
  assumes "L \<subseteq> set_option r"
  shows "foldl live_step L
           ((case r of None \<Rightarrow> [] | Some i \<Rightarrow> [Destroy i, Destroy i]) @
            [LoadAnimation n rd lp d, SetSpeed n sp]) = {n}"
    and "at_most_one_live L
           ((case r of None \<Rightarrow> [] | Some i \<Rightarrow> [Destroy i, Destroy i]) @
            [LoadAnimation n rd lp d, SetSpeed n sp])"
    and "foldl live_step L (case r of None \<Rightarrow> [] | Some i \<Rightarrow> [Destroy i]) = {}"
    and "at_most_one_live L (case r of None \<Rightarrow> [] | Some i \<Rightarrow> [Destroy i])"
proof -
  have "L = {} \<or> (\<exists>i. r = Some i \<and> L = {i})"
    using assms by (cases r) auto
  then show "foldl live_step L
           ((case r of None \<Rightarrow> [] | Some i \<Rightarrow> [Destroy i, Destroy i]) @
            [LoadAnimation n rd lp d, SetSpeed n sp]) = {n}"
    and "at_most_one_live L
           ((case r of None \<Rightarrow> [] | Some i \<Rightarrow> [Destroy i, Destroy i]) @
            [LoadAnimation n rd lp d, SetSpeed n sp])"
    and "foldl live_step L (case r of None \<Rightarrow> [] | Some i \<Rightarrow> [Destroy i]) = {}"
    and "at_most_one_live L (case r of None \<Rightarrow> [] | Some i \<Rightarrow> [Destroy i])"
    by (auto split: option.splits)
qed

lemma render_rendered_ok:
  assumes e: "engine_ok s"
    and b: "\<not> mounted s \<or> same_deps (effectDeps s) (deps s) \<Longrightarrow> session_ok s"
  shows "rendered_ok (render s)"
proof -
  have a: "at_most_one_live {} (trace s)"
    and l: "live (trace s) \<subseteq> set_option (animationInstanceRef s)"
    and p: "fst (animationData s) < parses s"
    using e by (simp_all add: engine_ok_def)
  have f: "foldl live_step {} (trace s) = live (trace s)"
    by (simp add: live_def)
  let ?gone = "(case animationInstanceRef s of None \<Rightarrow> [] | Some i \<Rightarrow> [Destroy i])"
  have g1: "live (trace s @ ?gone) = {}"
    unfolding live_append by (rule live_rebuild(3) [OF l])
  have g2: "at_most_one_live {} (trace s @ ?gone)"
    using a live_rebuild(4) [OF l]
    by (simp only: at_most_one_live_append [of "{}" "trace s" ?gone] f simp_thms)
  consider (unmounted) "\<not> mounted s"
    | (thrown) "mounted s" "\<not> jsx_renders s"
    | (same) "mounted s" "jsx_renders s" "same_deps (effectDeps s) (deps s)"
    | (changed) "mounted s" "jsx_renders s" "\<not> same_deps (effectDeps s) (deps s)"
    by blast
  then show ?thesis
  proof cases
    case unmounted
    then show ?thesis
      using e b by (simp add: render_unmounted rendered_ok_def)
  next
    case thrown
    show ?thesis
      unfolding render_thrown [OF thrown] using e g1 g2
      by (simp add: rendered_ok_def engine_ok_def session_ok_def)
  next
    case same
    then have "render s = s\<lparr>containerRef := truthy (snd (animationData s))\<rparr>"
      by (simp add: render_def deps_def)
    then show ?thesis
      using e b same
      by (simp add: rendered_ok_def engine_ok_def session_ok_def deps_def jsx_renders_def)
  next
    case changed
    note rc = render_changed [OF changed]
    show ?thesis
    proof (cases "truthy (snd (animationData s))")
      case True
      let ?new = "(case animationInstanceRef s of None \<Rightarrow> [] | Some i \<Rightarrow> [Destroy i, Destroy i]) @
                  [LoadAnimation (instances s) (renderer (settings s)) (loop (settings s))
                     (animationData s),
                   SetSpeed (instances s) (speed (settings s))]"
      have r: "render s =
         s\<lparr>containerRef := True, isPlaying := True,
               animationInstanceRef := Some (instances s),
               instances := instances s + 1,
               effectDeps := deps s,
               trace := trace s @ ?new\<rparr>"
        using rc True by simp
      have 1: "live (trace s @ ?new) = {instances s}"
        unfolding live_append by (rule live_rebuild(1) [OF l])
      have 2: "at_most_one_live {} (trace s @ ?new)"
        using a live_rebuild(2) [OF l, of "instances s" "renderer (settings s)" "loop (settings s)"
            "animationData s" "speed (settings s)"]
        by (simp only: at_most_one_live_append [of "{}" "trace s" ?new] f simp_thms)
      show ?thesis
        unfolding r using True p 1 2 changed(1,2)
        by (simp add: rendered_ok_def engine_ok_def session_ok_def deps_def same_deps_refl
            jsx_renders_def)
    next
      case nt: False
      have r: "render s =
         s\<lparr>containerRef := False, effectDeps := deps s, trace := trace s @ ?gone\<rparr>"
        using rc nt by simp
      show ?thesis
        unfolding r using nt p g1 g2 changed(1,2)
        by (simp add: rendered_ok_def engine_ok_def session_ok_def deps_def same_deps_refl
            jsx_renders_def)
    qed
  qed
qed

lemma rendered_ok_initial: "rendered_ok initial"
  by (simp add: rendered_ok_def engine_ok_def session_ok_def initial_def deps_def
      same_deps_def object_is_def live_def jsx_renders_def)

lemma quiet_handler:
  assumes ok: "rendered_ok s"
    and same: "mounted s' = mounted s" "animationData s' = animationData s"
      "animationInstanceRef s' = animationInstanceRef s"
      "effectDeps s' = effectDeps s" "parses s' = parses s"
    and tr: "trace s' = trace s \<or> (\<exists>c. trace s' = trace s @ [c] \<and> (\<forall>L. live_step L c = L))"
  shows "rendered_ok (render s')"
proof -
  have a: "at_most_one_live {} (trace s)" and e: "engine_ok s" and b: "session_ok s"
    using ok by (simp_all add: rendered_ok_def engine_ok_def)
  have c: "card (foldl live_step {} (trace s)) \<le> 1"
    using at_most_one_live_end [OF a] .
  have l: "live (trace s') = live (trace s)"
    using tr by (auto simp add: live_snoc)
  have m: "at_most_one_live {} (trace s')"
    using tr a c by (auto simp add: at_most_one_live_snoc)
  have "engine_ok s'"
    using e same l m by (simp add: engine_ok_def)
  moreover have "session_ok s'"
    using b same l by (simp add: session_ok_def)
  ultimately show ?thesis
    by (intro render_rendered_ok)
qed

lemma same_value_again:
  assumes d: "same_deps (effectDeps s) (deps s)"
    and p: "fst (fst (effectDeps s)) < parses s"
    and n: "object_is (fst (effectDeps s)) (parses s, json)"
  shows "json = snd (animationData s)"
proof -
  have o: "object_is (fst (effectDeps s)) (animationData s)"
    using d by (simp add: same_deps_def deps_def)
  have 1: "\<not> is_reference (snd (fst (effectDeps s)))" "\<not> is_reference json"
    and 2: "snd (fst (effectDeps s)) = json"
    using n p by (auto simp add: object_is_def split: if_splits)
  have "snd (fst (effectDeps s)) = snd (animationData s)"
    using o by (auto simp add: object_is_def split: if_splits)
  with 2 show ?thesis by simp
qed

lemma reader_onload_cases:
  "(\<exists>e. JSON_parse text = Inl e \<and> reader_onload JSON_parse fl text s = emit (Alert parse_alert) s) \<or>
   (\<exists>json. JSON_parse text = Inr json \<and>
      (reader_onload JSON_parse fl text s =
         emit (Alert parse_alert) (s\<lparr>animationData := (parses s, json), parses := parses s + 1\<rparr>) \<or>
       (\<exists>m. reader_onload JSON_parse fl text s =
         s\<lparr>animationData := (parses s, json), parses := parses s + 1,
           metadata := Some m, analysis := None\<rparr>)))"
  by (cases "JSON_parse text")
     (auto simp add: reader_onload_def Let_def split: sum.splits)

lemma upload_rendered_ok:
  assumes ok: "rendered_ok s"
  shows "rendered_ok (upload JSON_parse fl text s)"
proof -
  have a: "at_most_one_live {} (trace s)" and e: "engine_ok s" and b: "session_ok s"
    using ok by (simp_all add: rendered_ok_def engine_ok_def)
  have c: "card (foldl live_step {} (trace s)) \<le> 1"
    using at_most_one_live_end [OF a] .
  let ?r = "reader_onload JSON_parse fl text s"
  consider (fail) "?r = emit (Alert parse_alert) s"
    | (new) json where "animationData ?r = (parses s, json)" "parses ?r = parses s + 1"
        "animationInstanceRef ?r = animationInstanceRef s" "effectDeps ?r = effectDeps s"
        "settings ?r = settings s" "mounted ?r = mounted s"
        "trace ?r = trace s \<or> trace ?r = trace s @ [Alert parse_alert]"
    using reader_onload_cases [of JSON_parse "text" fl s] by (auto simp add: emit_def)
  then show ?thesis
  proof cases
    case fail
    show ?thesis
      unfolding upload_def
      by (rule quiet_handler [OF ok]) (simp_all add: fail emit_def)
  next
    case new
    have l: "live (trace ?r) = live (trace s)"
      using new(7) by (auto simp add: live_snoc)
    have m: "at_most_one_live {} (trace ?r)"
      using new(7) a c by (auto simp add: at_most_one_live_snoc)
    have 1: "engine_ok ?r"
      using e new(1-4) l m by (simp add: engine_ok_def)
    have 2: "session_ok ?r" if s: "\<not> mounted ?r \<or> same_deps (effectDeps ?r) (deps ?r)"
    proof (cases "mounted s")
      case False
      then show ?thesis
        using b new(6) l by (simp add: session_ok_def)
    next
      case True
      then have d: "same_deps (effectDeps s) (deps s)"
        using ok by (simp add: rendered_ok_def)
      have "object_is (fst (effectDeps s)) (parses s, json)"
        using s True new by (simp add: same_deps_def deps_def)
      then have "json = snd (animationData s)"
        using same_value_again [OF d] e by (simp add: engine_ok_def)
      then show ?thesis
        using b new(1,3,6) l by (simp add: session_ok_def)
    qed
    show ?thesis
      unfolding upload_def using 1 2 by (rule render_rendered_ok)
  qed
qed

lemma step_rendered_ok:
  assumes ok: "rendered_ok s"
  shows "rendered_ok (step JSON_parse s ev)"
proof (cases ev)
  case (FileLoaded fl t)
  then show ?thesis using upload_rendered_ok [OF ok] by simp
next
  case ClickPlayPause
  have "rendered_ok (render (handlePlayPause s))"
    by (rule quiet_handler [OF ok])
       (auto simp add: handlePlayPause_def emit_def split: option.splits)
  then show ?thesis using ok ClickPlayPause by simp
next
  case ClickStop
  have "rendered_ok (render (handleStop s))"
    by (rule quiet_handler [OF ok])
       (auto simp add: handleStop_def emit_def split: option.splits)
  then show ?thesis using ok ClickStop by simp
next
  case ClickRestart
  have "rendered_ok (render (restart s))"
    by (rule quiet_handler [OF ok])
       (auto simp add: restart_def emit_def split: option.splits)
  then show ?thesis using ok ClickRestart by simp
next
  case (SlideSpeed v)
  have "rendered_ok (render (handleSpeedChange v s))"
    by (rule quiet_handler [OF ok])
       (auto simp add: handleSpeedChange_def emit_def Let_def split: option.splits)
  then show ?thesis using ok SlideSpeed by (simp add: changeSpeed_def)
next
  case (PickColor c)
  have "rendered_ok (render (s\<lparr>settings := (settings s)\<lparr>backgroundColor := c\<rparr>\<rparr>))"
    by (rule quiet_handler [OF ok]) simp_all
  then show ?thesis using ok PickColor by simp
next
  case ClickLooping
  have "rendered_ok (render (toggleLoop s))"
    by (rule quiet_handler [OF ok]) (simp_all add: toggleLoop_def)
  then show ?thesis using ok ClickLooping by (simp add: changeLoop_def)
next
  case (SelectRenderer r)
  have "rendered_ok (render (selectRenderer r s))"
    by (rule quiet_handler [OF ok]) (simp_all add: selectRenderer_def)
  then show ?thesis using ok SelectRenderer by (simp add: changeRenderer_def)
next
  case (ClickAnalysis c)
  have "rendered_ok (render (handleAnalyze c s))"
    by (rule quiet_handler [OF ok])
       (auto simp add: handleAnalyze_def catch_finally_def emit_def Let_def
          split: option.splits sum.splits)
  then show ?thesis using ok ClickAnalysis by (simp add: click_AI_Analysis_def)
next
  case (AnalysisBack out)
  have "rendered_ok (render (handleAnalyze_resumed out s))"
    by (rule quiet_handler [OF ok])
       (auto simp add: handleAnalyze_resumed_def catch_finally_def emit_def
          split: outcome.splits)
  then show ?thesis using AnalysisBack by simp
qed

lemma foldl_step_rendered_ok:
  "rendered_ok s \<Longrightarrow> rendered_ok (foldl (step JSON_parse) s evs)"
  by (induction evs arbitrary: s) (simp_all add: step_rendered_ok)

lemma run_rendered_ok: "rendered_ok (run JSON_parse evs)"
  by (simp add: run_def foldl_step_rendered_ok rendered_ok_initial)


lemma never_two_live_instances: "at_most_one_live {} (trace (run JSON_parse evs))"
  using run_rendered_ok [of JSON_parse evs] by (simp add: rendered_ok_def engine_ok_def)

lemma shown_session_live:
  assumes "shown (run JSON_parse evs)"
  shows "\<exists>i. animationInstanceRef (run JSON_parse evs) = Some i \<and>
             live (trace (run JSON_parse evs)) = {i}"
  using run_rendered_ok [of JSON_parse evs] assms
  by (auto simp add: rendered_ok_def session_ok_def shown_def)

subsection \<open>Transport controls\<close>

text \<open>
  Claim C9. With no render session (the instance reference is \<open>null\<close>), the
  pause/resume, stop and restart operations change nothing and call nothing; with a
  session they call the instance the reference holds, and only it: one \<open>pause\<close> or
  \<open>play\<close>, one \<open>stop\<close>, one \<open>goToAndPlay(0)\<close>. No effect runs in the render after.
  In every state the component can reach in which the transport controls are shown,
  the reference holds an instance and it is the live one.
\<close>

theorem transport_needs_session:
  "(animationInstanceRef s = None \<longrightarrow>
      handlePlayPause s = s \<and> handleStop s = s \<and> restart s = s) \<and>
   (animationInstanceRef s = Some i \<longrightarrow>
      handlePlayPause s =
        s\<lparr>isPlaying := \<not> isPlaying s,
          trace := trace s @ [if isPlaying s then Pause i else Play i]\<rparr> \<and>
      handleStop s = s\<lparr>isPlaying := False, trace := trace s @ [Stop i]\<rparr> \<and>
      restart s = s\<lparr>trace := trace s @ [GoToAndPlay i 0]\<rparr>) \<and>
   (render s = s \<longrightarrow>
      render (handlePlayPause s) = handlePlayPause s \<and>
      render (handleStop s) = handleStop s \<and>
      render (restart s) = restart s) \<and>
   (shown (run JSON_parse evs) \<longrightarrow>
      (\<exists>k. animationInstanceRef (run JSON_parse evs) = Some k \<and>
           live (trace (run JSON_parse evs)) = {k}))"
proof -
  have "render (handlePlayPause s) = handlePlayPause s \<and>
      render (handleStop s) = handleStop s \<and>
      render (restart s) = restart s" if "render s = s"
    by (intro conjI fixed_transfer [OF that])
       (simp_all add: handlePlayPause_def handleStop_def restart_def emit_def
         split: option.splits)
  then show ?thesis
    using shown_session_live [of JSON_parse evs]
    by (simp add: handlePlayPause_def handleStop_def restart_def emit_def)
qed

theorem transport_needs_session_witness:
  "animationInstanceRef initial = None \<and>
   handlePlayPause initial = initial \<and> handleStop initial = initial \<and> restart initial = initial \<and>
   animationInstanceRef (run sample_parse [FileLoaded sample_file sample_text]) = Some 0 \<and>
   trace (handlePlayPause (run sample_parse [FileLoaded sample_file sample_text])) =
     trace (run sample_parse [FileLoaded sample_file sample_text]) @ [Pause 0] \<and>
   trace (handleStop (run sample_parse [FileLoaded sample_file sample_text])) =
     trace (run sample_parse [FileLoaded sample_file sample_text]) @ [Stop 0] \<and>
   trace (restart (run sample_parse [FileLoaded sample_file sample_text])) =
     trace (run sample_parse [FileLoaded sample_file sample_text]) @ [GoToAndPlay 0 0] \<and>
   render initial = initial \<and> render (handlePlayPause initial) = handlePlayPause initial \<and>
   shown (run sample_parse [FileLoaded sample_file sample_text]) \<and>
   live (trace (run sample_parse [FileLoaded sample_file sample_text])) = {0}"
proof -
  let ?s = "run sample_parse [FileLoaded sample_file sample_text]"
  have i: "animationInstanceRef initial = None" "render initial = initial"
    by (simp_all add: initial_def render_eval)
  have u: "animationInstanceRef ?s = Some 0" "isPlaying ?s" "shown ?s"
    by (simp_all add: run_def shown_def upload_def reader_onload_def sample_parse_def
        sample_document_def metadata_literal_def initial_def render_eval)
  show ?thesis
    using transport_needs_session [of initial 0 sample_parse "[]"]
      transport_needs_session [of ?s 0 sample_parse "[FileLoaded sample_file sample_text]"] i u
    by simp
qed

end
